theory Spec2Isabelle
  imports Main "HOL-Library.AList" "HOL-Library.Multiset"
begin

section \<open>Values decoded from a request body\<close>

text \<open>
  \<^verbatim>\<open>handleHookEvent\<close> in \<^verbatim>\<open>webhook-server/server.js\<close> receives whatever
  \<^verbatim>\<open>JSON.parse\<close> returned: \<^verbatim>\<open>null\<close>, a boolean, a number, a string, an array
  or an object. A number is kept as a value of a carrier \<open>'n\<close> with a zero; the server
  only tests a number for truthiness (\<^verbatim>\<open>JSON.parse\<close> never yields \<^verbatim>\<open>NaN\<close>, and
  \<^verbatim>\<open>-0\<close> counts as \<open>0\<close>) and compares it as a \<^verbatim>\<open>Map\<close> key. A string is the
  list of its code units. An object is the list of its own properties, which
  \<^verbatim>\<open>JSON.parse\<close> makes distinct in their keys.
\<close>

datatype 'n json =
    JNull
  | JBool bool
  | JNum 'n
  | JStr string
  | JArr "'n json list"
  | JObj "(string \<times> 'n json) list"

text \<open>JavaScript's \<^verbatim>\<open>ToBoolean\<close> on a decoded value.\<close>

fun truthy :: "('n::zero) json \<Rightarrow> bool" where
  "truthy JNull = False"
| "truthy (JBool b) = b"
| "truthy (JNum n) = (n \<noteq> 0)"
| "truthy (JStr s) = (s \<noteq> [])"
| "truthy (JArr xs) = True"
| "truthy (JObj kvs) = True"

text \<open>
  A property read \<^verbatim>\<open>v.name\<close> gives \<^verbatim>\<open>undefined\<close> (here \<open>None\<close>) when the
  property is absent, also on a boolean, a number, a string or an array for the
  five names the handler reads (\<^verbatim>\<open>event\<close>, \<^verbatim>\<open>hook_event_name\<close>,
  \<^verbatim>\<open>session_id\<close>, \<^verbatim>\<open>tool_use_id\<close>, \<^verbatim>\<open>tool_name\<close>): no prototype defines them.
  The read on \<^verbatim>\<open>null\<close> throws; \<open>handleHookEvent\<close> below has that branch.
\<close>

fun getProp :: "'n json \<Rightarrow> string \<Rightarrow> 'n json option" where
  "getProp (JObj kvs) name = map_of kvs name"
| "getProp v name = None"

definition truthy_opt :: "('n::zero) json option \<Rightarrow> bool" where
  "truthy_opt v = (case v of None \<Rightarrow> False | Some j \<Rightarrow> truthy j)"

text \<open>\<^verbatim>\<open>a || b\<close>: the left operand when it is truthy, the right one otherwise.\<close>

definition js_or :: "('n::zero) json option \<Rightarrow> 'n json option \<Rightarrow> 'n json option" where
  "js_or a b = (if truthy_opt a then a else b)"

text \<open>
  A reference value (array or object) is a fresh reference in every decoded body, so as
  a \<^verbatim>\<open>Map\<close> key it equals no key stored before; the other values are compared by
  value (\<^verbatim>\<open>SameValueZero\<close>).
\<close>

fun is_ref :: "'n json \<Rightarrow> bool" where
  "is_ref (JArr xs) = True"
| "is_ref (JObj kvs) = True"
| "is_ref v = False"

subsection \<open>The object spread \<^verbatim>\<open>{ ...event, receivedAt: timestamp }\<close>\<close>

fun dec :: "nat \<Rightarrow> string" where
  "dec n = (if n < 10 then [''0123456789'' ! n]
            else dec (n div 10) @ [''0123456789'' ! (n mod 10)])"

declare dec.simps [simp del]

text \<open>
  The own enumerable properties a spread copies: those of an object, the indices of an
  array, the indices of a string (one code unit each), none of a boolean or a number.
\<close>

fun ownProps :: "'n json \<Rightarrow> (string \<times> 'n json) list" where
  "ownProps (JObj kvs) = kvs"
| "ownProps (JArr xs) = zip (map dec [0..<length xs]) xs"
| "ownProps (JStr s) = zip (map dec [0..<length s]) (map (\<lambda>c. JStr [c]) s)"
| "ownProps v = []"

type_synonym 'n activityRecord = "(string \<times> 'n json) list"

definition historyEntry :: "'n json \<Rightarrow> string \<Rightarrow> 'n activityRecord" where
  "historyEntry event timestamp =
     AList.update ''receivedAt'' (JStr timestamp) (ownProps event)"

section \<open>The tracker state\<close>

record 'n task =
  startedAt :: int
  toolName :: "'n json option"

text \<open>
  \<^verbatim>\<open>activeTasks\<close> is a \<^verbatim>\<open>Map\<close>: its entries in insertion order. \<^verbatim>\<open>lastActivity\<close>
  and \<^verbatim>\<open>currentSession\<close> are \<^verbatim>\<open>null\<close> (here \<open>None\<close>) or a value.
\<close>

record 'n state =
  isActive :: bool
  lastActivity :: "int option"
  currentSession :: "'n json option"
  activeTasks :: "('n json \<times> 'n task) list"
  activityHistory :: "'n activityRecord list"

definition init_state :: "'n state" where
  "init_state =
     \<lparr>isActive = False, lastActivity = None, currentSession = None,
      activeTasks = [], activityHistory = []\<rparr>"

definition INACTIVITY_TIMEOUT :: int where
  "INACTIVITY_TIMEOUT = 2 * 60 * 1000"

text \<open>\<^verbatim>\<open>Map.prototype.set\<close> and \<^verbatim>\<open>Map.prototype.delete\<close> with a key of a decoded body.\<close>

definition Map_set :: "'n json \<Rightarrow> 'v \<Rightarrow> ('n json \<times> 'v) list \<Rightarrow> ('n json \<times> 'v) list" where
  "Map_set k v m = (if is_ref k then m @ [(k, v)] else AList.update k v m)"

definition Map_delete :: "'n json \<Rightarrow> ('n json \<times> 'v) list \<Rightarrow> ('n json \<times> 'v) list" where
  "Map_delete k m = (if is_ref k then m else AList.delete k m)"

section \<open>\<^verbatim>\<open>handleHookEvent\<close>\<close>

datatype exn = TypeError | SyntaxError

text \<open>
  \<^verbatim>\<open>if (state.activityHistory.length > 50) { state.activityHistory.pop(); }\<close>, run
  after the \<^verbatim>\<open>unshift\<close>: at most one entry, the last, is dropped.
\<close>

definition pop_if_over_50 :: "'a list \<Rightarrow> 'a list" where
  "pop_if_over_50 h = (if length h > 50 then butlast h else h)"

text \<open>\<^verbatim>\<open>event.event || event.hook_event_name\<close>, the value the \<^verbatim>\<open>switch\<close> compares.\<close>

definition eventTypeOf :: "('n::zero) json \<Rightarrow> 'n json option" where
  "eventTypeOf event = js_or (getProp event ''event'') (getProp event ''hook_event_name'')"

text \<open>
  The template literal \<^verbatim>\<open>${eventType}\<close> of the \<^verbatim>\<open>default\<close> branch converts the
  event type to a string. An object is converted by its \<^verbatim>\<open>toString\<close>; a decoded object
  with an own \<^verbatim>\<open>toString\<close> property has a value there that cannot be called, and
  \<^verbatim>\<open>Object.prototype.valueOf\<close> gives back the object, so the conversion throws a
  \<^verbatim>\<open>TypeError\<close>. An array is joined, converting each element other than \<^verbatim>\<open>null\<close>,
  so it throws when an element does. Nothing else throws, \<^verbatim>\<open>undefined\<close> included.
\<close>

fun toString_throws :: "'n json \<Rightarrow> bool" where
  "toString_throws (JObj kvs) = (case map_of kvs ''toString'' of None \<Rightarrow> False | Some f \<Rightarrow> True)"
| "toString_throws (JArr xs) = list_ex toString_throws xs"
| "toString_throws v = False"

text \<open>
  The handler runs to completion without suspension. Its reads of the clock are
  parameters, in the order of the reads: \<open>timestamp\<close> is \<^verbatim>\<open>new Date().toISOString()\<close>,
  \<open>started\<close> the \<^verbatim>\<open>Date.now()\<close> stored as \<^verbatim>\<open>startedAt\<close> of a task, and \<open>now\<close> the
  \<^verbatim>\<open>Date.now()\<close> stored as \<^verbatim>\<open>lastActivity\<close>. The result is the exception thrown, if
  any, and the state the run leaves behind. Two statements can throw. The first one
  reads \<^verbatim>\<open>event.event\<close> for its log line, which throws a \<^verbatim>\<open>TypeError\<close> on \<^verbatim>\<open>null\<close>
  before anything is written. The log line of the \<^verbatim>\<open>default\<close> branch throws when the
  event type cannot be converted to a string, after the history and \<^verbatim>\<open>lastActivity\<close>
  have been written. The other log lines print constants and the size of the task
  mapping; what is printed is not modelled.
\<close>

definition handleHookEvent ::
    "string \<Rightarrow> int \<Rightarrow> int \<Rightarrow> ('n::zero) json \<Rightarrow> 'n state \<Rightarrow> exn option \<times> 'n state" where
  "handleHookEvent timestamp started now event state =
    (if event = JNull then (Some TypeError, state)
     else
       let unshifted = historyEntry event timestamp # activityHistory state;
           state1 = state\<lparr>activityHistory := pop_if_over_50 unshifted\<rparr>;
           eventType = eventTypeOf event
       in
         if eventType = Some (JStr ''session_start'') \<or> eventType = Some (JStr ''SessionStart'')
         then (None,
               state1\<lparr>currentSession := js_or (getProp event ''session_id'') (Some (JStr ''active'')),
                      isActive := True,
                      lastActivity := Some now\<rparr>)
         else if eventType = Some (JStr ''session_end'') \<or> eventType = Some (JStr ''SessionEnd'')
         then (None,
               state1\<lparr>currentSession := None,
                      isActive := False,
                      activeTasks := []\<rparr>)
         else if eventType = Some (JStr ''task_start'') \<or> eventType = Some (JStr ''PreToolUse'')
         then
           let state2 =
                 (case getProp event ''tool_use_id'' of
                    None \<Rightarrow> state1
                  | Some k \<Rightarrow>
                      if truthy k
                      then state1\<lparr>activeTasks :=
                             Map_set k \<lparr>startedAt = started, toolName = getProp event ''tool_name''\<rparr>
                               (activeTasks state1)\<rparr>
                      else state1)
           in (None, state2\<lparr>isActive := True, lastActivity := Some now\<rparr>)
         else if eventType = Some (JStr ''task_end'') \<or> eventType = Some (JStr ''PostToolUse'')
         then
           let state2 =
                 (case getProp event ''tool_use_id'' of
                    None \<Rightarrow> state1
                  | Some k \<Rightarrow>
                      if truthy k
                      then state1\<lparr>activeTasks := Map_delete k (activeTasks state1)\<rparr>
                      else state1);
               state3 = state2\<lparr>lastActivity := Some now\<rparr>
           in (None,
               state3\<lparr>isActive :=
                        (length (activeTasks state3) > 0 \<or> currentSession state3 \<noteq> None)\<rparr>)
         else if eventType = Some (JStr ''stop'') \<or> eventType = Some (JStr ''Stop'')
                 \<or> eventType = Some (JStr ''SubagentStop'')
         then (None, state1\<lparr>lastActivity := Some now\<rparr>)
         else if eventType = Some (JStr ''heartbeat'')
         then (None, state1\<lparr>lastActivity := Some now\<rparr>)
         else
           let state2 = state1\<lparr>lastActivity := Some now\<rparr>
           in (case eventType of
                 None \<Rightarrow> (None, state2)
               | Some v \<Rightarrow> if toString_throws v then (Some TypeError, state2) else (None, state2)))"

section \<open>\<^verbatim>\<open>isClaudeActive\<close> and \<^verbatim>\<open>getStatus\<close>\<close>

text \<open>
  \<^verbatim>\<open>if (state.lastActivity)\<close> is a truthiness test on \<^verbatim>\<open>null\<close> or a number: it
  fails on \<^verbatim>\<open>null\<close> and on \<open>0\<close>.
\<close>

definition isClaudeActive :: "int \<Rightarrow> ('n::zero) state \<Rightarrow> bool" where
  "isClaudeActive now state =
    (if \<not> truthy_opt (currentSession state) \<and> length (activeTasks state) = 0 then False
     else if length (activeTasks state) > 0 then True
     else (case lastActivity state of
             None \<Rightarrow> False
           | Some t \<Rightarrow>
               if t \<noteq> 0
               then (let timeSinceActivity = now - t
                     in if timeSinceActivity < INACTIVITY_TIMEOUT then True else False)
               else False))"

record 'n status =
  status_isActive :: bool
  status_lastActivity :: "int option"
  status_currentSession :: "'n json option"
  activeTaskCount :: nat
  timeSinceActivity :: "int option"
  inactivityTimeout :: int

definition getStatus :: "int \<Rightarrow> ('n::zero) state \<Rightarrow> 'n status" where
  "getStatus now state =
     (let active = isClaudeActive now state
      in \<lparr>status_isActive = active,
          status_lastActivity = lastActivity state,
          status_currentSession = currentSession state,
          activeTaskCount = length (activeTasks state),
          timeSinceActivity =
            (case lastActivity state of
               None \<Rightarrow> None
             | Some t \<Rightarrow> if t \<noteq> 0 then Some (now - t) else None),
          inactivityTimeout = INACTIVITY_TIMEOUT\<rparr>)"

section \<open>The \<^verbatim>\<open>POST /hook\<close> handler\<close>

text \<open>
  \<^verbatim>\<open>JSON.parse\<close> belongs to the runtime; it is the parameter \<open>parse\<close>, with \<open>None\<close>
  for a thrown \<^verbatim>\<open>SyntaxError\<close>. The response is its status code and the value handed
  to \<^verbatim>\<open>JSON.stringify\<close>. One \<^verbatim>\<open>try\<close> block holds the parse and the call of
  \<open>handleHookEvent\<close>, so its \<^verbatim>\<open>catch\<close> answers either exception.
\<close>

record 'n response =
  statusCode :: nat
  body :: "'n json"

definition post_hook ::
    "(string \<Rightarrow> ('n::zero) json option) \<Rightarrow> string \<Rightarrow> int \<Rightarrow> int \<Rightarrow> string \<Rightarrow> 'n state
       \<Rightarrow> 'n response \<times> 'n state" where
  "post_hook parse timestamp started now request_body state =
    (case parse request_body of
       None \<Rightarrow> (\<lparr>statusCode = 400, body = JObj [(''error'', JStr ''Invalid JSON'')]\<rparr>, state)
     | Some event \<Rightarrow>
         (case handleHookEvent timestamp started now event state of
            (Some e, state') \<Rightarrow>
              (\<lparr>statusCode = 400, body = JObj [(''error'', JStr ''Invalid JSON'')]\<rparr>, state')
          | (None, state') \<Rightarrow>
              (\<lparr>statusCode = 200, body = JObj [(''success'', JBool True)]\<rparr>, state')))"

text \<open>A run of the server over successive hook events, each with its clock readings.\<close>

type_synonym 'n call = "string \<times> int \<times> int \<times> 'n json"

fun run :: "('n::zero) call list \<Rightarrow> 'n state \<Rightarrow> 'n state" where
  "run [] state = state"
| "run ((timestamp, started, now, event) # cs) state =
     run cs (snd (handleHookEvent timestamp started now event state))"

section \<open>Event kinds and state conditions named in the statements\<close>

text \<open>Each predicate is one group of \<^verbatim>\<open>case\<close> labels of the \<^verbatim>\<open>switch\<close>.\<close>

definition is_session_start :: "('n::zero) json \<Rightarrow> bool" where
  "is_session_start event =
     (eventTypeOf event = Some (JStr ''session_start'') \<or> eventTypeOf event = Some (JStr ''SessionStart''))"

definition is_session_end :: "('n::zero) json \<Rightarrow> bool" where
  "is_session_end event =
     (eventTypeOf event = Some (JStr ''session_end'') \<or> eventTypeOf event = Some (JStr ''SessionEnd''))"

definition is_task_start_kind :: "('n::zero) json \<Rightarrow> bool" where
  "is_task_start_kind event =
     (eventTypeOf event = Some (JStr ''task_start'') \<or> eventTypeOf event = Some (JStr ''PreToolUse''))"

definition is_task_end_kind :: "('n::zero) json \<Rightarrow> bool" where
  "is_task_end_kind event =
     (eventTypeOf event = Some (JStr ''task_end'') \<or> eventTypeOf event = Some (JStr ''PostToolUse''))"

definition is_stop :: "('n::zero) json \<Rightarrow> bool" where
  "is_stop event =
     (eventTypeOf event = Some (JStr ''stop'') \<or> eventTypeOf event = Some (JStr ''Stop'')
      \<or> eventTypeOf event = Some (JStr ''SubagentStop''))"

text \<open>A task-start, or task-end, event that carries \<open>k\<close> as its \<^verbatim>\<open>tool_use_id\<close>.\<close>

definition is_task_start :: "('n::zero) json \<Rightarrow> 'n json \<Rightarrow> bool" where
  "is_task_start event k = (is_task_start_kind event \<and> getProp event ''tool_use_id'' = Some k)"

definition is_task_end :: "('n::zero) json \<Rightarrow> 'n json \<Rightarrow> bool" where
  "is_task_end event k = (is_task_end_kind event \<and> getProp event ''tool_use_id'' = Some k)"

text \<open>
  A task-start event with no usable \<^verbatim>\<open>tool_use_id\<close> that arrives while no session is
  open and no task is registered.
\<close>

definition untracked_task_start :: "('n::zero) json \<Rightarrow> 'n state \<Rightarrow> bool" where
  "untracked_task_start event state =
     (is_task_start_kind event \<and> \<not> truthy_opt (getProp event ''tool_use_id'')
      \<and> currentSession state = None \<and> activeTasks state = [])"

text \<open>
  Two conditions on a state. The first holds in every state the server reaches: the
  session is \<^verbatim>\<open>null\<close> or a truthy value. The second says that the cached flag
  agrees with the session and the task mapping.
\<close>

definition session_ok :: "('n::zero) state \<Rightarrow> bool" where
  "session_ok state = (currentSession state = None \<or> truthy_opt (currentSession state))"

definition cache_coherent :: "'n state \<Rightarrow> bool" where
  "cache_coherent state =
     (isActive state = (activeTasks state \<noteq> [] \<or> currentSession state \<noteq> None))"

text \<open>The history record a call leaves, and the events of a list of calls.\<close>

definition eventOf :: "'n call \<Rightarrow> 'n json" where
  "eventOf c = snd (snd (snd c))"

definition entryOf :: "'n call \<Rightarrow> 'n activityRecord" where
  "entryOf c = historyEntry (eventOf c) (fst c)"

text \<open>The clock reading a call stores as \<^verbatim>\<open>lastActivity\<close>.\<close>

definition nowOf :: "'n call \<Rightarrow> int" where
  "nowOf c = fst (snd (snd c))"

text \<open>The event type of an event cannot be converted to a string.\<close>

definition unprintable_type :: "('n::zero) json \<Rightarrow> bool" where
  "unprintable_type event =
     (case eventTypeOf event of None \<Rightarrow> False | Some v \<Rightarrow> toString_throws v)"


section \<open>Sample events, bodies and states\<close>

text \<open>
  Concrete inputs for the examples below. \<open>sample_parse\<close> stands for \<^verbatim>\<open>JSON.parse\<close>
  on the five bodies the examples post; every other body counts as a syntax error.
\<close>

definition sample_time :: string where
  "sample_time = ''2026-01-01T00:00:00.000Z''"

definition ev_named :: "string \<Rightarrow> int json" where
  "ev_named name = JObj [(''event'', JStr name)]"

definition ev_task_start :: "int json \<Rightarrow> int json" where
  "ev_task_start k = JObj [(''event'', JStr ''task_start''), (''tool_use_id'', k)]"

definition ev_task_end :: "int json \<Rightarrow> int json" where
  "ev_task_end k = JObj [(''hook_event_name'', JStr ''PostToolUse''), (''tool_use_id'', k)]"

definition sample_parse :: "string \<Rightarrow> int json option" where
  \<open>sample_parse request_body =
     (if request_body = ''null'' then Some JNull
      else if request_body = ''5'' then Some (JNum 5)
      else if request_body = ''true'' then Some (JBool True)
      else if request_body = ''{}'' then Some (JObj [])
      else if request_body = ''{"event":{"toString":null}}''
      then Some (JObj [(''event'', JObj [(''toString'', JNull)])])
      else None)\<close>

text \<open>The fresh tracker after one event at clock reading \<open>now\<close>.\<close>

definition after_one :: "int \<Rightarrow> int json \<Rightarrow> int state" where
  "after_one now event = snd (handleHookEvent sample_time now now event init_state)"

text \<open>Sixty heartbeats, numbered by their clock readings \<open>1\<close> to \<open>60\<close>.\<close>

definition sixty_calls :: "int call list" where
  "sixty_calls =
     map (\<lambda>i. (sample_time, int i + 1, int i + 1,
                JObj [(''event'', JStr ''heartbeat''), (''seq'', JNum (int i + 1))])) [0..<60]"



section \<open>The handler, one kind of event at a time\<close>

lemma eventTypeOf_JNull: "eventTypeOf JNull = None"
  by (simp add: eventTypeOf_def js_or_def truthy_opt_def)

lemma eventTypeOf_non_object:
  "eventTypeOf (JNum n) = None" "eventTypeOf (JStr str) = None" "eventTypeOf (JBool b) = None"
  "eventTypeOf (JArr xs) = None"
  by (simp_all add: eventTypeOf_def js_or_def truthy_opt_def)

lemma kind_not_null:
  "is_session_start event \<Longrightarrow> event \<noteq> JNull"
  "is_session_end event \<Longrightarrow> event \<noteq> JNull"
  "is_task_start_kind event \<Longrightarrow> event \<noteq> JNull"
  "is_task_end_kind event \<Longrightarrow> event \<noteq> JNull"
  "is_stop event \<Longrightarrow> event \<noteq> JNull"
  by (auto simp: is_session_start_def is_session_end_def is_task_start_kind_def
        is_task_end_kind_def is_stop_def eventTypeOf_JNull)

lemma handle_null: "handleHookEvent ts started now JNull s = (Some TypeError, s)"
  by (simp add: handleHookEvent_def)

lemma toString_throws_not_JStr: "toString_throws v \<Longrightarrow> v \<noteq> JStr str"
  by (cases v) simp_all

lemma handle_fst:
  "event \<noteq> JNull \<Longrightarrow>
   fst (handleHookEvent ts started now event s)
     = (if unprintable_type event then Some TypeError else None)"
  unfolding handleHookEvent_def Let_def unprintable_type_def
  by (auto split: option.splits dest: toString_throws_not_JStr)

lemma handle_returns:
  "event \<noteq> JNull \<Longrightarrow> \<not> unprintable_type event \<Longrightarrow>
   fst (handleHookEvent ts started now event s) = None"
  by (simp add: handle_fst)

lemma handle_history:
  "event \<noteq> JNull \<Longrightarrow>
   activityHistory (snd (handleHookEvent ts started now event s)) =
     pop_if_over_50 (historyEntry event ts # activityHistory s)"
  unfolding handleHookEvent_def Let_def by (simp split: option.splits)

lemma handle_session_start:
  "is_session_start event \<Longrightarrow>
   handleHookEvent ts started now event s =
     (None, s\<lparr>activityHistory := pop_if_over_50 (historyEntry event ts # activityHistory s),
              currentSession := js_or (getProp event ''session_id'') (Some (JStr ''active'')),
              isActive := True, lastActivity := Some now\<rparr>)"
  unfolding handleHookEvent_def Let_def is_session_start_def
  by (auto simp: eventTypeOf_JNull)

lemma handle_session_end:
  "is_session_end event \<Longrightarrow>
   handleHookEvent ts started now event s =
     (None, s\<lparr>activityHistory := pop_if_over_50 (historyEntry event ts # activityHistory s),
              currentSession := None, isActive := False, activeTasks := []\<rparr>)"
  unfolding handleHookEvent_def Let_def is_session_end_def
  by (auto simp: eventTypeOf_JNull)

lemma handle_task_start:
  "is_task_start_kind event \<Longrightarrow>
   handleHookEvent ts started now event s =
     (None, s\<lparr>activityHistory := pop_if_over_50 (historyEntry event ts # activityHistory s),
              activeTasks :=
                (case getProp event ''tool_use_id'' of
                   None \<Rightarrow> activeTasks s
                 | Some k \<Rightarrow>
                     if truthy k
                     then Map_set k \<lparr>startedAt = started, toolName = getProp event ''tool_name''\<rparr>
                            (activeTasks s)
                     else activeTasks s),
              isActive := True, lastActivity := Some now\<rparr>)"
  unfolding handleHookEvent_def Let_def is_task_start_kind_def
  by (auto simp: eventTypeOf_JNull split: option.splits)

lemma handle_task_end:
  "is_task_end_kind event \<Longrightarrow>
   handleHookEvent ts started now event s =
     (None, s\<lparr>activityHistory := pop_if_over_50 (historyEntry event ts # activityHistory s),
              activeTasks :=
                (case getProp event ''tool_use_id'' of
                   None \<Rightarrow> activeTasks s
                 | Some k \<Rightarrow> if truthy k then Map_delete k (activeTasks s) else activeTasks s),
              lastActivity := Some now,
              isActive :=
                ((case getProp event ''tool_use_id'' of
                   None \<Rightarrow> activeTasks s
                 | Some k \<Rightarrow> if truthy k then Map_delete k (activeTasks s) else activeTasks s) \<noteq> []
                 \<or> currentSession s \<noteq> None)\<rparr>)"
  unfolding handleHookEvent_def Let_def is_task_end_kind_def
  by (auto simp: eventTypeOf_JNull split: option.splits)

lemma handle_stop:
  "is_stop event \<Longrightarrow>
   handleHookEvent ts started now event s =
     (None, s\<lparr>activityHistory := pop_if_over_50 (historyEntry event ts # activityHistory s),
              lastActivity := Some now\<rparr>)"
  unfolding handleHookEvent_def Let_def is_stop_def
  by (auto simp: eventTypeOf_JNull)

lemma handle_other:
  "event \<noteq> JNull \<Longrightarrow> \<not> is_session_start event \<Longrightarrow> \<not> is_session_end event \<Longrightarrow>
   \<not> is_task_start_kind event \<Longrightarrow> \<not> is_task_end_kind event \<Longrightarrow>
   snd (handleHookEvent ts started now event s) =
     s\<lparr>activityHistory := pop_if_over_50 (historyEntry event ts # activityHistory s),
       lastActivity := Some now\<rparr>"
  unfolding handleHookEvent_def Let_def is_session_start_def is_session_end_def
    is_task_start_kind_def is_task_end_kind_def
  by (simp split: option.splits)

lemma unprintable_no_kind:
  assumes "unprintable_type event"
  shows "\<not> is_session_start event" "\<not> is_session_end event"
    "\<not> is_task_start_kind event" "\<not> is_task_end_kind event" "event \<noteq> JNull"
  using assms
  by (auto simp add: unprintable_type_def is_session_start_def is_session_end_def
        is_task_start_kind_def is_task_end_kind_def eventTypeOf_JNull)

lemma handle_unprintable:
  assumes "unprintable_type event"
  shows "handleHookEvent ts started now event s =
     (Some TypeError,
      s\<lparr>activityHistory := pop_if_over_50 (historyEntry event ts # activityHistory s),
        lastActivity := Some now\<rparr>)"
  using unprintable_no_kind[OF assms] assms
    handle_fst[of event ts started now s] handle_other[of event ts started now s]
  by (simp add: prod_eq_iff)

lemma js_or_active_truthy: "truthy_opt (js_or v (Some (JStr ''active'')))"
  by (simp add: js_or_def truthy_opt_def)

lemma js_or_active_Some: "js_or v (Some (JStr ''active'')) \<noteq> None"
  by (cases v) (simp_all add: js_or_def truthy_opt_def)

lemma Map_set_nonempty: "Map_set k v m \<noteq> []"
  by (simp add: Map_set_def)

lemma Map_set_keys: "fst ` set (Map_set k v m) = insert k (fst ` set m)"
  by (simp add: Map_set_def AList.dom_update)

lemma Map_delete_keys: "\<not> is_ref k \<Longrightarrow> fst ` set (Map_delete k m) = fst ` set m - {k}"
  by (auto simp add: Map_delete_def AList.delete_eq)

lemmas sample_defs =
  sample_time_def ev_named_def ev_task_start_def ev_task_end_def after_one_def
  init_state_def handleHookEvent_def eventTypeOf_def js_or_def truthy_opt_def
  pop_if_over_50_def Map_set_def Map_delete_def AList.delete_eq Let_def

section \<open>What every reached state satisfies\<close>

text \<open>
  The session is \<^verbatim>\<open>null\<close> or truthy in the fresh state and after every call, since
  a session start stores \<^verbatim>\<open>event.session_id || 'active'\<close>. The fresh state also has
  its cached flag in agreement with session and tasks.
\<close>

lemma session_ok_init: "session_ok init_state"
  by (simp add: session_ok_def init_state_def)

lemma cache_coherent_init: "cache_coherent init_state"
  by (simp add: cache_coherent_def init_state_def)

lemma session_ok_step:
  assumes ok: "session_ok s"
  shows "session_ok (snd (handleHookEvent ts started now event s))"
proof (cases "event = JNull")
  case True
  with ok show ?thesis by (simp add: handle_null)
next
  case ev: False
  consider (sstart) "is_session_start event" | (send) "is_session_end event"
    | (tstart) "is_task_start_kind event" | (tend) "is_task_end_kind event"
    | (other) "\<not> is_session_start event" "\<not> is_session_end event"
        "\<not> is_task_start_kind event" "\<not> is_task_end_kind event"
    by blast
  then show ?thesis
  proof cases
    case sstart
    show ?thesis
      by (simp add: handle_session_start[OF sstart] session_ok_def js_or_active_truthy)
  next
    case send
    show ?thesis by (simp add: handle_session_end[OF send] session_ok_def)
  next
    case tstart
    with ok show ?thesis by (simp add: handle_task_start[OF tstart] session_ok_def)
  next
    case tend
    with ok show ?thesis by (simp add: handle_task_end[OF tend] session_ok_def)
  next
    case other
    with ok show ?thesis by (simp add: handle_other[OF ev other] session_ok_def)
  qed
qed

lemma session_ok_run: "session_ok s \<Longrightarrow> session_ok (run cs s)"
  by (induction cs arbitrary: s) (auto simp add: session_ok_step)

text \<open>\<open>lastActivity\<close> is only ever written from the clock reading of the call.\<close>

lemma lastActivity_step:
  "lastActivity (snd (handleHookEvent ts started now event s)) = lastActivity s
   \<or> lastActivity (snd (handleHookEvent ts started now event s)) = Some now"
proof (cases "event = JNull")
  case True
  then show ?thesis by (simp add: handle_null)
next
  case ev: False
  consider (sstart) "is_session_start event" | (send) "is_session_end event"
    | (tstart) "is_task_start_kind event" | (tend) "is_task_end_kind event"
    | (other) "\<not> is_session_start event" "\<not> is_session_end event"
        "\<not> is_task_start_kind event" "\<not> is_task_end_kind event"
    by blast
  then show ?thesis
  proof cases
    case sstart
    show ?thesis by (simp add: handle_session_start[OF sstart])
  next
    case send
    show ?thesis by (simp add: handle_session_end[OF send])
  next
    case tstart
    show ?thesis by (simp add: handle_task_start[OF tstart])
  next
    case tend
    show ?thesis by (simp add: handle_task_end[OF tend])
  next
    case other
    show ?thesis by (simp add: handle_other[OF ev other])
  qed
qed

lemma lastActivity_run:
  "\<forall>c\<in>set cs. nowOf c \<noteq> 0 \<Longrightarrow> lastActivity s \<noteq> Some 0 \<Longrightarrow>
   lastActivity (run cs s) \<noteq> Some 0"
proof (induction cs arbitrary: s)
  case Nil
  then show ?case by simp
next
  case (Cons c cs)
  obtain ts started now ev where c: "c = (ts, started, now, ev)" by (cases c) auto
  from Cons.prems(1) c have now: "now \<noteq> 0" by (simp add: nowOf_def)
  have "lastActivity (snd (handleHookEvent ts started now ev s)) \<noteq> Some 0"
    using lastActivity_step[of ts started now ev s] Cons.prems(2) now by auto
  with Cons.IH[of "snd (handleHookEvent ts started now ev s)"] Cons.prems(1)
  show ?case by (simp add: c)
qed

section \<open>Properties of \<^verbatim>\<open>isClaudeActive\<close>\<close>

text \<open>
  C4. While the task mapping is non-empty, \<open>isClaudeActive\<close> is true at every current
  time, whatever \<open>lastActivity\<close> and the session are: the in-flight-task override beats
  the inactivity timeout.
\<close>

theorem tasks_override_timeout:
  "activeTasks state \<noteq> [] \<Longrightarrow> isClaudeActive now state"
  by (simp add: isClaudeActive_def)

theorem tasks_override_timeout_witness:
  "activeTasks (after_one 1 (ev_task_start (JStr ''t1''))) \<noteq> []
   \<and> isClaudeActive 999999999 (after_one 1 (ev_task_start (JStr ''t1'')))"
proof -
  have h: "activeTasks (after_one 1 (ev_task_start (JStr ''t1''))) \<noteq> []"
    by (simp add: sample_defs)
  from h tasks_override_timeout[OF h] show ?thesis by simp
qed


text \<open>
  With the session \<^verbatim>\<open>null\<close> or truthy and \<open>lastActivity\<close> not the number \<open>0\<close>, the
  truthiness tests of \<open>isClaudeActive\<close> are tests for \<^verbatim>\<open>null\<close>.
\<close>

lemma four_step_rule_nonzero:
  assumes "session_ok state" "lastActivity state \<noteq> Some 0"
  shows "isClaudeActive now state =
    (if currentSession state = None \<and> activeTasks state = [] then False
     else if activeTasks state \<noteq> [] then True
     else if \<exists>t. lastActivity state = Some t \<and> now - t < 120000 then True
     else False)"
  using assms
  by (auto simp add: isClaudeActive_def session_ok_def INACTIVITY_TIMEOUT_def truthy_opt_def
      split: option.splits)

text \<open>
  C1. In every state the server reaches, and at every current time, \<open>isClaudeActive\<close>
  is the four-step rule: false when the session is \<^verbatim>\<open>null\<close> and the task mapping is
  empty; otherwise true when the task mapping is non-empty; otherwise true when
  \<open>lastActivity\<close> is set and \<open>now - lastActivity < INACTIVITY_TIMEOUT\<close>, which is
  120000; otherwise false. The states are those of any run of calls from the fresh
  tracker; \<open>lastActivity\<close> is written only from \<^verbatim>\<open>Date.now()\<close>, and the clock is taken
  not to read \<open>0\<close>, the first millisecond of 1970, at a call.
\<close>

theorem four_step_rule_reached:
  assumes readings: "\<forall>c\<in>set cs. nowOf c \<noteq> 0"
  shows "isClaudeActive now (run cs init_state) =
    (if currentSession (run cs init_state) = None \<and> activeTasks (run cs init_state) = []
     then False
     else if activeTasks (run cs init_state) \<noteq> [] then True
     else if \<exists>t. lastActivity (run cs init_state) = Some t \<and> now - t < INACTIVITY_TIMEOUT
     then True
     else False)
    \<and> INACTIVITY_TIMEOUT = 120000"
proof -
  have ok: "session_ok (run cs init_state)"
    using session_ok_init by (rule session_ok_run)
  have "lastActivity (init_state :: 'a state) \<noteq> Some 0" by (simp add: init_state_def)
  with readings have nz: "lastActivity (run cs init_state) \<noteq> Some 0"
    by (rule lastActivity_run)
  from ok nz show ?thesis
    by (auto simp add: isClaudeActive_def session_ok_def INACTIVITY_TIMEOUT_def truthy_opt_def
        split: option.splits)
qed

theorem four_step_rule_reached_witness:
  "list_all (\<lambda>c. nowOf c \<noteq> 0)
     [(sample_time, 1000, 1000, ev_named ''session_start''),
      (sample_time, 2000, 2000, ev_named ''stop'')]
   \<and> isClaudeActive 121999
       (run [(sample_time, 1000, 1000, ev_named ''session_start''),
             (sample_time, 2000, 2000, ev_named ''stop'')] init_state)
   \<and> \<not> isClaudeActive 122000
       (run [(sample_time, 1000, 1000, ev_named ''session_start''),
             (sample_time, 2000, 2000, ev_named ''stop'')] init_state)"
proof -
  let ?cs = "[(sample_time, 1000, 1000, ev_named ''session_start''),
              (sample_time, 2000, 2000, ev_named ''stop'')]"
  have a: "\<forall>c\<in>set ?cs. nowOf c \<noteq> 0" by (simp add: nowOf_def)
  have a': "list_all (\<lambda>c. nowOf c \<noteq> 0) ?cs" by (simp add: nowOf_def)
  have s1: "is_session_start (JObj [(''event'', JStr ''session_start'')] :: int json)"
    by (simp add: is_session_start_def eventTypeOf_def js_or_def truthy_opt_def)
  have s2: "is_stop (JObj [(''event'', JStr ''stop'')] :: int json)"
    by (simp add: is_stop_def eventTypeOf_def js_or_def truthy_opt_def)
  have b: "currentSession (run ?cs init_state) = Some (JStr ''active'')"
    and c: "activeTasks (run ?cs init_state) = []"
    and d: "lastActivity (run ?cs init_state) = Some 2000"
    by (simp_all add: handle_session_start[OF s1] handle_stop[OF s2] init_state_def
          ev_named_def js_or_def truthy_opt_def)
  have t1: "isClaudeActive 121999 (run ?cs init_state)"
    using four_step_rule_reached[OF a, of 121999]
    by (simp only: b c d) (simp add: INACTIVITY_TIMEOUT_def)
  have t2: "\<not> isClaudeActive 122000 (run ?cs init_state)"
    using four_step_rule_reached[OF a, of 122000]
    by (simp only: b c d) (simp add: INACTIVITY_TIMEOUT_def)
  from a' t1 t2 show ?thesis by (simp only: simp_thms)
qed

text \<open>
  The condition on the clock cannot be dropped: \<^verbatim>\<open>if (state.lastActivity)\<close> does not
  tell a stored reading \<open>0\<close> from \<^verbatim>\<open>null\<close>.
\<close>

lemma clock_reading_zero:
  "currentSession (after_one 0 (ev_named ''session_start'')) = Some (JStr ''active'')
   \<and> activeTasks (after_one 0 (ev_named ''session_start'')) = []
   \<and> lastActivity (after_one 0 (ev_named ''session_start'')) = Some 0
   \<and> isClaudeActive 1 (after_one 0 (ev_named ''session_start'')) = False"
  by (simp add: sample_defs isClaudeActive_def)

text \<open>
  C3 (amended). With no task and \<open>lastActivity = T\<close>, \<open>T\<close> not zero, \<open>isClaudeActive\<close>
  is true exactly when a session is open and \<open>now < T + INACTIVITY_TIMEOUT\<close>: with an
  open session it is true before \<open>T + INACTIVITY_TIMEOUT\<close> and false from then on, and
  with no session it is false at every time.
\<close>

theorem timeout_window:
  assumes "activeTasks state = []" "lastActivity state = Some T" "T \<noteq> 0"
  shows "isClaudeActive now state
           = (truthy_opt (currentSession state) \<and> now < T + INACTIVITY_TIMEOUT)"
  using assms by (auto simp add: isClaudeActive_def)

theorem timeout_window_witness:
  "activeTasks (after_one 1000 (ev_named ''session_start'')) = []
   \<and> lastActivity (after_one 1000 (ev_named ''session_start'')) = Some 1000
   \<and> (1000::int) \<noteq> 0
   \<and> isClaudeActive 120999 (after_one 1000 (ev_named ''session_start''))
   \<and> \<not> isClaudeActive 121000 (after_one 1000 (ev_named ''session_start''))"
proof -
  let ?s = "after_one 1000 (ev_named ''session_start'')"
  have a: "activeTasks ?s = []" and b: "lastActivity ?s = Some 1000"
    and c: "truthy_opt (currentSession ?s)"
    by (simp_all add: sample_defs)
  have d: "(1000::int) \<noteq> 0" by simp
  from a b c d timeout_window[OF a b d, of 120999] timeout_window[OF a b d, of 121000]
  show ?thesis by (simp add: INACTIVITY_TIMEOUT_def)
qed

text \<open>
  C3 as stated fails: after a heartbeat at clock reading \<open>1000\<close> on the fresh tracker
  there is no session and no task, \<open>lastActivity = 1000\<close>, and \<open>isClaudeActive\<close> is
  false at \<open>now = 1000\<close>, which is before \<open>T + INACTIVITY_TIMEOUT\<close>.
\<close>

theorem timeout_window_without_session_counterexample:
  "currentSession (after_one 1000 (ev_named ''heartbeat'')) = None
   \<and> activeTasks (after_one 1000 (ev_named ''heartbeat'')) = []
   \<and> lastActivity (after_one 1000 (ev_named ''heartbeat'')) = Some 1000
   \<and> (1000::int) < 1000 + INACTIVITY_TIMEOUT
   \<and> \<not> isClaudeActive 1000 (after_one 1000 (ev_named ''heartbeat''))"
  by (simp add: sample_defs isClaudeActive_def INACTIVITY_TIMEOUT_def)

section \<open>The cached flag\<close>

text \<open>
  C2 (amended). In a state whose session is \<^verbatim>\<open>null\<close> or truthy and whose cached
  \<open>isActive\<close> equals "a task is registered or a session is open" (the fresh state is
  one), after every call that returns, at a clock reading other than \<open>0\<close>, of an event
  that is not a task-start without usable \<^verbatim>\<open>tool_use_id\<close> arriving with no session
  and no task, \<open>isActive\<close> equals \<open>isClaudeActive\<close> at that reading, and both
  conditions hold again.
\<close>

theorem cached_flag_agrees:
  assumes coh: "cache_coherent s" and ok: "session_ok s"
    and now: "now \<noteq> 0" and ev: "event \<noteq> JNull"
    and tracked: "\<not> untracked_task_start event s"
  shows "isActive (snd (handleHookEvent ts started now event s))
           = isClaudeActive now (snd (handleHookEvent ts started now event s))
         \<and> cache_coherent (snd (handleHookEvent ts started now event s))
         \<and> session_ok (snd (handleHookEvent ts started now event s))"
proof -
  consider (sstart) "is_session_start event" | (send) "is_session_end event"
    | (tstart) "is_task_start_kind event" | (tend) "is_task_end_kind event"
    | (other) "\<not> is_session_start event" "\<not> is_session_end event"
        "\<not> is_task_start_kind event" "\<not> is_task_end_kind event"
    by blast
  then show ?thesis
  proof cases
    case sstart
    show ?thesis
      using now
      by (simp add: handle_session_start[OF sstart] isClaudeActive_def cache_coherent_def
            session_ok_def js_or_active_truthy js_or_active_Some INACTIVITY_TIMEOUT_def)
  next
    case send
    show ?thesis
      by (simp add: handle_session_end[OF send] isClaudeActive_def cache_coherent_def
            session_ok_def truthy_opt_def)
  next
    case tstart
    show ?thesis
      using now ok coh tracked tstart
      by (auto simp add: handle_task_start[OF tstart] isClaudeActive_def cache_coherent_def
            session_ok_def untracked_task_start_def Map_set_nonempty INACTIVITY_TIMEOUT_def
            truthy_opt_def
          split: option.splits)
  next
    case tend
    show ?thesis
      using now ok
      by (auto simp add: handle_task_end[OF tend] isClaudeActive_def cache_coherent_def
            session_ok_def INACTIVITY_TIMEOUT_def truthy_opt_def
          split: option.splits)
  next
    case other
    show ?thesis
      using now ok coh
      by (auto simp add: handle_other[OF ev other] isClaudeActive_def cache_coherent_def
            session_ok_def INACTIVITY_TIMEOUT_def truthy_opt_def
          split: option.splits)
  qed
qed

theorem cached_flag_agrees_witness:
  "cache_coherent (after_one 1000 (ev_named ''session_start''))
   \<and> session_ok (after_one 1000 (ev_named ''session_start''))
   \<and> (2000::int) \<noteq> 0 \<and> ev_named ''task_start'' \<noteq> JNull
   \<and> \<not> untracked_task_start (ev_named ''task_start'') (after_one 1000 (ev_named ''session_start''))
   \<and> isActive (snd (handleHookEvent sample_time 2000 2000 (ev_named ''task_start'')
                      (after_one 1000 (ev_named ''session_start''))))
       = isClaudeActive 2000 (snd (handleHookEvent sample_time 2000 2000 (ev_named ''task_start'')
                      (after_one 1000 (ev_named ''session_start''))))
   \<and> isActive (snd (handleHookEvent sample_time 2000 2000 (ev_named ''task_start'')
                      (after_one 1000 (ev_named ''session_start''))))"
proof -
  let ?s = "after_one 1000 (ev_named ''session_start'')"
  have a: "cache_coherent ?s" by (simp add: cache_coherent_def sample_defs)
  have b: "session_ok ?s" by (simp add: session_ok_def sample_defs)
  have c: "(2000::int) \<noteq> 0" by simp
  have d: "ev_named ''task_start'' \<noteq> JNull" by (simp add: ev_named_def)
  have e: "\<not> untracked_task_start (ev_named ''task_start'') ?s"
    by (simp add: untracked_task_start_def sample_defs)
  have f: "isActive (snd (handleHookEvent sample_time 2000 2000 (ev_named ''task_start'') ?s))"
    by (simp add: sample_defs is_task_start_kind_def)
  from a b c d e f cached_flag_agrees[OF a b c d e, of sample_time 2000] show ?thesis by simp
qed

text \<open>
  C2 as stated fails: on the fresh tracker a task-start event without
  \<^verbatim>\<open>tool_use_id\<close> sets \<open>isActive\<close>, while \<open>isClaudeActive\<close> at the same clock reading
  is false, there being neither session nor task.
\<close>

theorem cached_flag_untracked_task_start_counterexample:
  "isActive (after_one 1000 (ev_named ''task_start'')) = True
   \<and> isClaudeActive 1000 (after_one 1000 (ev_named ''task_start'')) = False"
  by (simp add: sample_defs isClaudeActive_def)

section \<open>Task bookkeeping over a run\<close>

lemma task_start_step:
  assumes "is_task_start event k"
  shows "currentSession (snd (handleHookEvent ts started now event s)) = currentSession s"
    and "fst ` set (activeTasks (snd (handleHookEvent ts started now event s)))
           = fst ` set (activeTasks s) \<union> {k'. k' = k \<and> truthy k}"
  using assms
  by (auto simp add: is_task_start_def handle_task_start Map_set_keys)

lemma task_end_step:
  assumes "is_task_end event k" "\<not> is_ref k"
  shows "currentSession (snd (handleHookEvent ts started now event s)) = currentSession s"
    and "fst ` set (activeTasks (snd (handleHookEvent ts started now event s)))
           = fst ` set (activeTasks s) - {k'. k' = k \<and> truthy k}"
  using assms
  by (auto simp add: is_task_end_def handle_task_end Map_delete_keys)

lemma run_append: "run (xs @ ys) s = run ys (run xs s)"
  by (induction xs arbitrary: s) auto

lemma run_starts:
  "list_all2 (\<lambda>c k. is_task_start (eventOf c) k) cs ids \<Longrightarrow>
   currentSession (run cs s) = currentSession s \<and>
   fst ` set (activeTasks (run cs s)) = fst ` set (activeTasks s) \<union> {k \<in> set ids. truthy k}"
proof (induction cs ids arbitrary: s rule: list_all2_induct)
  case Nil
  then show ?case by simp
next
  case (Cons c cs k ids)
  obtain ts started now ev where c: "c = (ts, started, now, ev)" by (cases c) auto
  from Cons.hyps(1) c have st: "is_task_start ev k" by (simp add: eventOf_def)
  show ?case
    using Cons.IH[of "snd (handleHookEvent ts started now ev s)"] task_start_step[OF st, of ts started now s]
    by (auto simp add: c)
qed

lemma run_ends:
  "list_all2 (\<lambda>c k. is_task_end (eventOf c) k) cs ids \<Longrightarrow> \<forall>k\<in>set ids. \<not> is_ref k \<Longrightarrow>
   currentSession (run cs s) = currentSession s \<and>
   fst ` set (activeTasks (run cs s)) = fst ` set (activeTasks s) - {k \<in> set ids. truthy k}"
proof (induction cs ids arbitrary: s rule: list_all2_induct)
  case Nil
  then show ?case by simp
next
  case (Cons c cs k ids)
  obtain ts started now ev where c: "c = (ts, started, now, ev)" by (cases c) auto
  from Cons.hyps(1) c have st: "is_task_end ev k" by (simp add: eventOf_def)
  from Cons.prems have nr: "\<not> is_ref k" and rest: "\<forall>k\<in>set ids. \<not> is_ref k" by simp_all
  show ?case
    using Cons.IH[OF rest, of "snd (handleHookEvent ts started now ev s)"]
      task_end_step[OF st nr, of ts started now s]
    by (auto simp add: c)
qed

text \<open>
  C5 (amended). Start in a state with no open session and an empty task mapping. After
  task-start events with pairwise distinct ids, none of them an array or an object,
  followed by the task-end events for the same ids in any order, the task mapping is
  empty, \<open>isClaudeActive\<close> is false at every clock reading, and \<open>getStatus\<close> reports
  \<open>activeTaskCount = 0\<close> and \<open>isActive = false\<close>.
\<close>

theorem tasks_started_then_ended:
  assumes nosess: "currentSession s = None" and notasks: "activeTasks s = []"
    and starts: "list_all2 (\<lambda>c k. is_task_start (eventOf c) k) starts ids"
    and dist: "distinct ids" and prim: "\<forall>k\<in>set ids. \<not> is_ref k"
    and ends: "list_all2 (\<lambda>c k. is_task_end (eventOf c) k) ends ids'"
    and perm: "mset ids' = mset ids"
  shows "activeTasks (run (starts @ ends) s) = []
         \<and> \<not> isClaudeActive now (run (starts @ ends) s)
         \<and> activeTaskCount (getStatus now (run (starts @ ends) s)) = 0
         \<and> \<not> status_isActive (getStatus now (run (starts @ ends) s))"
proof -
  let ?s1 = "run starts s"
  let ?s2 = "run ends ?s1"
  have seteq: "set ids' = set ids" using perm by (rule mset_eq_setD)
  have prim': "\<forall>k\<in>set ids'. \<not> is_ref k" using prim seteq by simp
  have k1: "fst ` set (activeTasks ?s1) = {k \<in> set ids. truthy k}"
    and c1: "currentSession ?s1 = None"
    using run_starts[OF starts, of s] nosess notasks by simp_all
  have k2: "fst ` set (activeTasks ?s2) = {}" and c2: "currentSession ?s2 = None"
    using run_ends[OF ends prim', of ?s1] k1 c1 seteq by simp_all
  from k2 have empty: "activeTasks ?s2 = []" by simp
  show ?thesis
    using empty c2
    by (simp add: run_append isClaudeActive_def getStatus_def truthy_opt_def)
qed

text \<open>
  The fresh tracker, task-start \<open>t1\<close>, then task-end \<open>t1\<close>.
\<close>

theorem tasks_started_then_ended_witness:
  "currentSession (init_state :: int state) = None \<and> activeTasks (init_state :: int state) = []
   \<and> list_all2 (\<lambda>c k. is_task_start (eventOf c) k)
        [(sample_time, 1, 1, ev_task_start (JStr ''t1''))] [JStr ''t1'']
   \<and> distinct [JStr ''t1'' :: int json] \<and> list_all (\<lambda>k. \<not> is_ref k) [JStr ''t1'' :: int json]
   \<and> list_all2 (\<lambda>c k. is_task_end (eventOf c) k)
        [(sample_time, 2, 2, ev_task_end (JStr ''t1''))] [JStr ''t1'']
   \<and> mset [JStr ''t1'' :: int json] = mset [JStr ''t1'']
   \<and> activeTaskCount (getStatus 2
        (run ([(sample_time, 1, 1, ev_task_start (JStr ''t1''))]
              @ [(sample_time, 2, 2, ev_task_end (JStr ''t1''))]) init_state)) = 0
   \<and> \<not> status_isActive (getStatus 2
        (run ([(sample_time, 1, 1, ev_task_start (JStr ''t1''))]
              @ [(sample_time, 2, 2, ev_task_end (JStr ''t1''))]) init_state))"
proof -
  have a: "currentSession (init_state :: int state) = None"
    and b: "activeTasks (init_state :: int state) = []"
    by (simp_all add: init_state_def)
  have c: "list_all2 (\<lambda>c k. is_task_start (eventOf c) k)
        [(sample_time, 1, 1, ev_task_start (JStr ''t1''))] [JStr ''t1'']"
    by (simp add: is_task_start_def is_task_start_kind_def eventOf_def sample_defs)
  have d: "distinct [JStr ''t1'' :: int json]" by simp
  have e: "\<forall>k\<in>set [JStr ''t1'' :: int json]. \<not> is_ref k" by simp
  have f: "list_all2 (\<lambda>c k. is_task_end (eventOf c) k)
        [(sample_time, 2, 2, ev_task_end (JStr ''t1''))] [JStr ''t1'']"
    by (simp add: is_task_end_def is_task_end_kind_def eventOf_def sample_defs)
  have g: "mset [JStr ''t1'' :: int json] = mset [JStr ''t1'']" by simp
  have e': "list_all (\<lambda>k. \<not> is_ref k) [JStr ''t1'' :: int json]" by simp
  from a b c d e' f g tasks_started_then_ended[OF a b c d e f g, of 2]
  show ?thesis by blast
qed

text \<open>
  C5 as stated fails in two ways. With no session but a task \<open>t0\<close> already registered,
  task-start \<open>t1\<close> then task-end \<open>t1\<close> leaves \<open>t0\<close> in the mapping and the tracker
  active. And from the fresh tracker, a task-start and a task-end that both carry the
  object \<^verbatim>\<open>{"n":1}\<close> as id leave one entry behind: the two decoded objects are
  different \<^verbatim>\<open>Map\<close> keys.
\<close>

theorem tasks_started_then_ended_counterexample:
  "currentSession (after_one 1 (ev_task_start (JStr ''t0''))) = None
   \<and> activeTasks (run [(sample_time, 2, 2, ev_task_start (JStr ''t1'')),
                        (sample_time, 3, 3, ev_task_end (JStr ''t1''))]
                     (after_one 1 (ev_task_start (JStr ''t0'')))) \<noteq> []
   \<and> isClaudeActive 3 (run [(sample_time, 2, 2, ev_task_start (JStr ''t1'')),
                            (sample_time, 3, 3, ev_task_end (JStr ''t1''))]
                         (after_one 1 (ev_task_start (JStr ''t0''))))
   \<and> currentSession (init_state :: int state) = None
   \<and> activeTasks (run [(sample_time, 1, 1, ev_task_start (JObj [(''n'', JNum 1)])),
                        (sample_time, 2, 2, ev_task_end (JObj [(''n'', JNum 1)]))]
                     init_state) \<noteq> []
   \<and> isClaudeActive 2 (run [(sample_time, 1, 1, ev_task_start (JObj [(''n'', JNum 1)])),
                        (sample_time, 2, 2, ev_task_end (JObj [(''n'', JNum 1)]))]
                     init_state)"
  by (simp add: sample_defs isClaudeActive_def)

section \<open>Session end and stop\<close>

text \<open>
  C6. A second session-end event right after a first one (either alias, any clock
  readings) changes none of the session, the task mapping, \<open>isActive\<close> and
  \<open>lastActivity\<close>: after one as after two the session is \<^verbatim>\<open>null\<close>, the task mapping
  empty, \<open>isActive\<close> false and \<open>isClaudeActive\<close> false.
\<close>

theorem session_end_twice:
  assumes "is_session_end e1" "is_session_end e2"
  shows "currentSession (snd (handleHookEvent ts2 started2 now2 e2 (snd (handleHookEvent ts1 started1 now1 e1 s))))
           = currentSession (snd (handleHookEvent ts1 started1 now1 e1 s))
       \<and> activeTasks (snd (handleHookEvent ts2 started2 now2 e2 (snd (handleHookEvent ts1 started1 now1 e1 s))))
           = activeTasks (snd (handleHookEvent ts1 started1 now1 e1 s))
       \<and> isActive (snd (handleHookEvent ts2 started2 now2 e2 (snd (handleHookEvent ts1 started1 now1 e1 s))))
           = isActive (snd (handleHookEvent ts1 started1 now1 e1 s))
       \<and> lastActivity (snd (handleHookEvent ts2 started2 now2 e2 (snd (handleHookEvent ts1 started1 now1 e1 s))))
           = lastActivity (snd (handleHookEvent ts1 started1 now1 e1 s))
       \<and> currentSession (snd (handleHookEvent ts1 started1 now1 e1 s)) = None
       \<and> activeTasks (snd (handleHookEvent ts1 started1 now1 e1 s)) = []
       \<and> \<not> isActive (snd (handleHookEvent ts1 started1 now1 e1 s))
       \<and> \<not> isClaudeActive now (snd (handleHookEvent ts1 started1 now1 e1 s))
       \<and> \<not> isClaudeActive now
             (snd (handleHookEvent ts2 started2 now2 e2 (snd (handleHookEvent ts1 started1 now1 e1 s))))"
  using assms by (simp add: handle_session_end isClaudeActive_def truthy_opt_def)

theorem session_end_twice_witness:
  "is_session_end (ev_named ''session_end'')
   \<and> is_session_end (JObj [(''hook_event_name'', JStr ''SessionEnd'')] :: int json)
   \<and> currentSession (after_one 1000 (ev_named ''session_start'')) \<noteq> None
   \<and> currentSession (snd (handleHookEvent sample_time 3000 3000
         (JObj [(''hook_event_name'', JStr ''SessionEnd'')])
         (snd (handleHookEvent sample_time 2000 2000 (ev_named ''session_end'')
            (after_one 1000 (ev_named ''session_start'')))))) = None
   \<and> \<not> isActive (snd (handleHookEvent sample_time 3000 3000
         (JObj [(''hook_event_name'', JStr ''SessionEnd'')])
         (snd (handleHookEvent sample_time 2000 2000 (ev_named ''session_end'')
            (after_one 1000 (ev_named ''session_start''))))))"
proof -
  have a: "is_session_end (ev_named ''session_end'')"
    by (simp add: is_session_end_def sample_defs)
  have b: "is_session_end (JObj [(''hook_event_name'', JStr ''SessionEnd'')] :: int json)"
    by (simp add: is_session_end_def sample_defs)
  have c: "currentSession (after_one 1000 (ev_named ''session_start'')) \<noteq> None"
    by (simp add: sample_defs)
  from a b c
    session_end_twice[OF a b, of sample_time 3000 3000 sample_time 2000 2000
      "after_one 1000 (ev_named ''session_start'')" 0]
  show ?thesis by simp
qed

text \<open>
  C8. In every state, a stop event (\<^verbatim>\<open>stop\<close>, \<^verbatim>\<open>Stop\<close> or \<^verbatim>\<open>SubagentStop\<close>) sets
  \<open>lastActivity\<close> to the clock reading and appends its history record; \<open>isActive\<close>, the
  session and the task mapping stay as they were.
\<close>

theorem stop_only_touches_lastActivity:
  assumes "is_stop event"
  shows "handleHookEvent ts started now event s =
     (None, s\<lparr>activityHistory := pop_if_over_50 (historyEntry event ts # activityHistory s),
              lastActivity := Some now\<rparr>)
    \<and> lastActivity (snd (handleHookEvent ts started now event s)) = Some now
    \<and> isActive (snd (handleHookEvent ts started now event s)) = isActive s
    \<and> currentSession (snd (handleHookEvent ts started now event s)) = currentSession s
    \<and> activeTasks (snd (handleHookEvent ts started now event s)) = activeTasks s"
  by (simp add: handle_stop[OF assms])

theorem stop_only_touches_lastActivity_witness:
  "is_stop (JObj [(''hook_event_name'', JStr ''SubagentStop'')] :: int json)
   \<and> lastActivity (snd (handleHookEvent sample_time 5000 5000
        (JObj [(''hook_event_name'', JStr ''SubagentStop'')])
        (after_one 1000 (ev_named ''session_start'')))) = Some 5000
   \<and> isActive (snd (handleHookEvent sample_time 5000 5000
        (JObj [(''hook_event_name'', JStr ''SubagentStop'')])
        (after_one 1000 (ev_named ''session_start''))))
   \<and> currentSession (snd (handleHookEvent sample_time 5000 5000
        (JObj [(''hook_event_name'', JStr ''SubagentStop'')])
        (after_one 1000 (ev_named ''session_start'')))) = Some (JStr ''active'')"
proof -
  have a: "is_stop (JObj [(''hook_event_name'', JStr ''SubagentStop'')] :: int json)"
    by (simp add: is_stop_def eventTypeOf_def js_or_def truthy_opt_def)
  have b: "isActive (after_one 1000 (ev_named ''session_start''))"
    and c: "currentSession (after_one 1000 (ev_named ''session_start'')) = Some (JStr ''active'')"
    by (simp_all add: sample_defs)
  from a b c
    stop_only_touches_lastActivity[OF a, of sample_time 5000 5000
      "after_one 1000 (ev_named ''session_start'')"]
  show ?thesis by simp
qed

section \<open>The history\<close>

lemma pop_if_over_50_take: "length h \<le> 51 \<Longrightarrow> pop_if_over_50 h = take 50 h"
proof (cases "length h > 50")
  case True
  assume "length h \<le> 51"
  with True have "length h - 1 = 50" by simp
  then have "butlast h = take 50 h" using butlast_conv_take[of h] by (simp only:)
  with True show ?thesis by (simp add: pop_if_over_50_def)
next
  case False
  then show ?thesis by (simp add: pop_if_over_50_def)
qed

lemma take_append_take: "take n (xs @ take n ys) = take n (xs @ ys)"
  by (simp add: min_def)

lemma handle_history_take:
  "event \<noteq> JNull \<Longrightarrow> length (activityHistory s) \<le> 50 \<Longrightarrow>
   activityHistory (snd (handleHookEvent ts started now event s)) =
     take 50 (historyEntry event ts # activityHistory s)"
  by (simp add: handle_history pop_if_over_50_take)

lemma run_history:
  "\<forall>c\<in>set cs. eventOf c \<noteq> JNull \<Longrightarrow> length (activityHistory s) \<le> 50 \<Longrightarrow>
   activityHistory (run cs s) = take 50 (rev (map entryOf cs) @ activityHistory s)"
proof (induction cs arbitrary: s)
  case Nil
  then show ?case by simp
next
  case (Cons c cs)
  obtain ts started now ev where c: "c = (ts, started, now, ev)" by (cases c) auto
  let ?s1 = "snd (handleHookEvent ts started now ev s)"
  have ev: "ev \<noteq> JNull" using Cons.prems(1) c by (simp add: eventOf_def)
  have h1: "activityHistory ?s1 = take 50 (historyEntry ev ts # activityHistory s)"
    using ev Cons.prems(2) by (rule handle_history_take)
  have len: "length (activityHistory ?s1) \<le> 50" by (simp add: h1)
  have "activityHistory (run cs ?s1) = take 50 (rev (map entryOf cs) @ activityHistory ?s1)"
    using Cons.IH[of ?s1] Cons.prems(1) len by simp
  also have "\<dots> = take 50 (rev (map entryOf cs) @ (historyEntry ev ts # activityHistory s))"
    unfolding h1 by (rule take_append_take)
  finally show ?case by (simp add: c entryOf_def [abs_def] eventOf_def del: take_append)
qed

text \<open>
  C7. Every call on an event other than \<^verbatim>\<open>null\<close>, whatever its kind, puts its
  record at the front of the history and keeps at most 50 records, dropping the oldest;
  the record is written before the \<^verbatim>\<open>switch\<close>. Over a run from a state with at most 50 records the history is
  the 50 most recent records, newest first; so it has \<open>min 50 (calls + records before)\<close>
  entries and its first entry is the record of the last call. After 60 events on the
  fresh tracker that is 50 entries, the first being the sixtieth event.
\<close>

theorem history_most_recent_first_capped:
  assumes events: "\<forall>c\<in>set cs. eventOf c \<noteq> JNull"
    and bound: "length (activityHistory s) \<le> 50"
  shows "activityHistory (run cs s) = take 50 (rev (map entryOf cs) @ activityHistory s)
         \<and> length (activityHistory (run cs s)) = min 50 (length cs + length (activityHistory s))
         \<and> (cs \<noteq> [] \<longrightarrow> hd (activityHistory (run cs s)) = entryOf (last cs))"
proof -
  have eq: "activityHistory (run cs s) = take 50 (rev (map entryOf cs) @ activityHistory s)"
    using events bound by (rule run_history)
  have len: "length (activityHistory (run cs s)) = min 50 (length cs + length (activityHistory s))"
    unfolding eq by simp
  have hd: "hd (activityHistory (run cs s)) = entryOf (last cs)" if "cs \<noteq> []"
  proof -
    from that obtain ds d where cs: "cs = ds @ [d]" by (cases cs rule: rev_cases) auto
    show ?thesis unfolding eq by (simp add: cs)
  qed
  from eq len hd show ?thesis by blast
qed

theorem history_most_recent_first_capped_witness:
  "list_all (\<lambda>c. eventOf c \<noteq> JNull) sixty_calls
   \<and> length (activityHistory (init_state :: int state)) \<le> 50
   \<and> length sixty_calls = 60
   \<and> length (activityHistory (run sixty_calls init_state)) = 50
   \<and> hd (activityHistory (run sixty_calls init_state))
       = [(''event'', JStr ''heartbeat''), (''seq'', JNum 60), (''receivedAt'', JStr sample_time)]"
proof -
  have a: "\<forall>c\<in>set sixty_calls. eventOf c \<noteq> JNull"
    by (simp add: sixty_calls_def eventOf_def)
  have b: "length (activityHistory (init_state :: int state)) \<le> 50"
    by (simp add: init_state_def)
  have c: "length sixty_calls = 60" by (simp add: sixty_calls_def)
  have d: "sixty_calls \<noteq> []" using c by auto
  have e: "last sixty_calls
             = (sample_time, 60, 60, JObj [(''event'', JStr ''heartbeat''), (''seq'', JNum 60)])"
    by (simp add: sixty_calls_def last_map)
  have f: "entryOf (last sixty_calls)
       = [(''event'', JStr ''heartbeat''), (''seq'', JNum 60), (''receivedAt'', JStr sample_time)]"
    by (simp add: e entryOf_def eventOf_def historyEntry_def)
  have g: "length (activityHistory (init_state :: int state)) = 0"
    by (simp add: init_state_def)
  from history_most_recent_first_capped[OF a b]
  have len: "length (activityHistory (run sixty_calls init_state))
               = min 50 (length sixty_calls + length (activityHistory (init_state :: int state)))"
    and hd: "hd (activityHistory (run sixty_calls init_state)) = entryOf (last sixty_calls)"
    using d by blast+
  from len c g have "length (activityHistory (run sixty_calls init_state)) = 50" by simp
  moreover have "list_all (\<lambda>c. eventOf c \<noteq> JNull) sixty_calls"
    using a by (simp only: list_all_iff)
  ultimately show ?thesis using b c hd f by (simp only: simp_thms)
qed

section \<open>\<^verbatim>\<open>POST /hook\<close>\<close>

text \<open>
  C9 (amended). When \<^verbatim>\<open>JSON.parse\<close> throws on the body, or yields \<^verbatim>\<open>null\<close> (on which
  the handler's first property read throws), the one \<^verbatim>\<open>catch\<close> answers 400 with
  \<^verbatim>\<open>{error:"Invalid JSON"}\<close> and the state is the one before the request. When the
  body decodes to any other value, object or not, whose event type can be converted to a
  string for the log line, \<open>handleHookEvent\<close> runs to its end on it and the answer is
  200 with \<^verbatim>\<open>{success:true}\<close>. Every event type that is a string, a number, a boolean,
  \<^verbatim>\<open>null\<close> or absent can be converted.
\<close>

theorem post_hook_outcomes:
  "(parse request_body = None \<or> parse request_body = Some JNull \<longrightarrow>
      post_hook parse ts started now request_body s =
        (\<lparr>statusCode = 400, body = JObj [(''error'', JStr ''Invalid JSON'')]\<rparr>, s))
   \<and> (\<forall>event. parse request_body = Some event \<and> event \<noteq> JNull
          \<and> \<not> unprintable_type event \<longrightarrow>
      post_hook parse ts started now request_body s =
        (\<lparr>statusCode = 200, body = JObj [(''success'', JBool True)]\<rparr>,
         snd (handleHookEvent ts started now event s))
      \<and> fst (handleHookEvent ts started now event s) = None)"
proof -
  have "fst (handleHookEvent ts started now event s) = None
        \<and> post_hook parse ts started now request_body s =
        (\<lparr>statusCode = 200, body = JObj [(''success'', JBool True)]\<rparr>,
         snd (handleHookEvent ts started now event s))"
    if "parse request_body = Some event" "event \<noteq> JNull" "\<not> unprintable_type event"
    for event
    using that handle_returns[OF that(2,3), of ts started now s]
    by (cases "handleHookEvent ts started now event s") (simp add: post_hook_def)
  then show ?thesis
    by (auto simp add: post_hook_def handle_null)
qed

theorem post_hook_outcomes_witness:
  "sample_parse ''null'' = Some JNull
   \<and> post_hook sample_parse sample_time 7 7 ''null'' init_state =
        (\<lparr>statusCode = 400, body = JObj [(''error'', JStr ''Invalid JSON'')]\<rparr>, init_state)
   \<and> sample_parse ''{'' = None
   \<and> post_hook sample_parse sample_time 7 7 ''{'' init_state =
        (\<lparr>statusCode = 400, body = JObj [(''error'', JStr ''Invalid JSON'')]\<rparr>, init_state)
   \<and> sample_parse ''{}'' = Some (JObj []) \<and> JObj [] \<noteq> (JNull :: int json)
   \<and> \<not> unprintable_type (JObj [] :: int json)
   \<and> post_hook sample_parse sample_time 7 7 ''{}'' init_state =
        (\<lparr>statusCode = 200, body = JObj [(''success'', JBool True)]\<rparr>,
         snd (handleHookEvent sample_time 7 7 (JObj []) init_state))"
proof -
  have a: "sample_parse ''null'' = Some JNull" and b: "sample_parse ''{'' = None"
    and c: "sample_parse ''{}'' = Some (JObj [])"
    by (simp_all add: sample_parse_def)
  have d: "JObj [] \<noteq> (JNull :: int json)" by simp
  have e: "\<not> unprintable_type (JObj [] :: int json)"
    by (simp add: unprintable_type_def eventTypeOf_def js_or_def truthy_opt_def)
  from a b c d e
    post_hook_outcomes[of sample_parse "''null''" sample_time 7 7 init_state]
    post_hook_outcomes[of sample_parse "''{''" sample_time 7 7 init_state]
    post_hook_outcomes[of sample_parse "''{}''" sample_time 7 7 init_state]
  show ?thesis by simp
qed

text \<open>
  C9 as stated fails whichever way "decoded into an event" is read. The body
  \<^verbatim>\<open>null\<close> is decoded by \<^verbatim>\<open>JSON.parse\<close> and yet answered 400. The body \<^verbatim>\<open>5\<close>
  decodes to a number, which is no event object, and yet is answered 200 and moves
  \<open>lastActivity\<close>. The body \<^verbatim>\<open>{"event":{"toString":null}}\<close> decodes to an object
  and is answered 400 after the history and \<open>lastActivity\<close> have been written: its
  event type cannot be converted to a string for the log line of the \<^verbatim>\<open>default\<close>
  branch.
\<close>

theorem post_hook_decode_counterexample:
  \<open>sample_parse ''null'' = Some JNull
   \<and> statusCode (fst (post_hook sample_parse sample_time 7 7 ''null'' init_state)) = 400
   \<and> sample_parse ''5'' = Some (JNum 5)
   \<and> statusCode (fst (post_hook sample_parse sample_time 7 7 ''5'' init_state)) = 200
   \<and> lastActivity (snd (post_hook sample_parse sample_time 7 7 ''5'' init_state)) = Some 7
   \<and> lastActivity (init_state :: int state) = None
   \<and> sample_parse ''{"event":{"toString":null}}''
       = Some (JObj [(''event'', JObj [(''toString'', JNull)])])
   \<and> statusCode (fst (post_hook sample_parse sample_time 7 7
         ''{"event":{"toString":null}}'' init_state)) = 400
   \<and> lastActivity (snd (post_hook sample_parse sample_time 7 7
         ''{"event":{"toString":null}}'' init_state)) = Some 7
   \<and> length (activityHistory (snd (post_hook sample_parse sample_time 7 7
         ''{"event":{"toString":null}}'' init_state))) = 1\<close>
  by (simp add: sample_parse_def post_hook_def sample_defs)

text \<open>
  C10. A body that decodes to \<^verbatim>\<open>null\<close> makes \<open>handleHookEvent\<close> throw with the state
  untouched, history included, and is answered 400 with \<^verbatim>\<open>{error:"Invalid JSON"}\<close>. A
  body that decodes to a number, a string or a boolean is answered 200 with
  \<^verbatim>\<open>{success:true}\<close>; it falls to the \<^verbatim>\<open>default\<close> branch, so only
  \<open>lastActivity\<close> and the history change.
\<close>

theorem post_hook_null_and_primitives:
  "(parse request_body = Some JNull \<longrightarrow>
      handleHookEvent ts started now JNull s = (Some TypeError, s)
      \<and> post_hook parse ts started now request_body s =
        (\<lparr>statusCode = 400, body = JObj [(''error'', JStr ''Invalid JSON'')]\<rparr>, s))
   \<and> (\<forall>event. parse request_body = Some event
         \<and> ((\<exists>n. event = JNum n) \<or> (\<exists>str. event = JStr str) \<or> (\<exists>b. event = JBool b)) \<longrightarrow>
      post_hook parse ts started now request_body s =
        (\<lparr>statusCode = 200, body = JObj [(''success'', JBool True)]\<rparr>,
         s\<lparr>activityHistory := pop_if_over_50 (historyEntry event ts # activityHistory s),
           lastActivity := Some now\<rparr>))"
proof -
  have prim: "handleHookEvent ts started now event s =
     (None, s\<lparr>activityHistory := pop_if_over_50 (historyEntry event ts # activityHistory s),
              lastActivity := Some now\<rparr>)"
    if "(\<exists>n. event = JNum n) \<or> (\<exists>str. event = JStr str) \<or> (\<exists>b. event = JBool b)" for event
  proof -
    from that have nn: "event \<noteq> JNull" and et: "eventTypeOf event = None"
      by (auto simp add: eventTypeOf_non_object)
    from et have kinds: "\<not> is_session_start event" "\<not> is_session_end event"
      "\<not> is_task_start_kind event" "\<not> is_task_end_kind event"
      by (simp_all add: is_session_start_def is_session_end_def is_task_start_kind_def
            is_task_end_kind_def)
    from et have "\<not> unprintable_type event" by (simp add: unprintable_type_def)
    with nn have "fst (handleHookEvent ts started now event s) = None"
      by (rule handle_returns)
    moreover have "snd (handleHookEvent ts started now event s) =
      s\<lparr>activityHistory := pop_if_over_50 (historyEntry event ts # activityHistory s),
        lastActivity := Some now\<rparr>"
      using nn kinds by (rule handle_other)
    ultimately show ?thesis by (simp add: prod_eq_iff)
  qed
  show ?thesis
    using prim by (auto simp add: post_hook_def handle_null)
qed

theorem post_hook_null_and_primitives_witness:
  "sample_parse ''null'' = Some JNull
   \<and> post_hook sample_parse sample_time 7 7 ''null'' (after_one 1 (ev_named ''session_start'')) =
        (\<lparr>statusCode = 400, body = JObj [(''error'', JStr ''Invalid JSON'')]\<rparr>,
         after_one 1 (ev_named ''session_start''))
   \<and> sample_parse ''5'' = Some (JNum 5)
   \<and> post_hook sample_parse sample_time 7 7 ''5'' init_state =
        (\<lparr>statusCode = 200, body = JObj [(''success'', JBool True)]\<rparr>,
         init_state\<lparr>activityHistory := [[(''receivedAt'', JStr sample_time)]],
           lastActivity := Some 7\<rparr>)"
proof -
  have a: "sample_parse ''null'' = Some JNull" and b: "sample_parse ''5'' = Some (JNum 5)"
    by (simp_all add: sample_parse_def)
  have c: "pop_if_over_50 (historyEntry (JNum 5 :: int json) sample_time
             # activityHistory (init_state :: int state))
           = [[(''receivedAt'', JStr sample_time)]]"
    by (simp add: pop_if_over_50_def historyEntry_def init_state_def)
  from a b c
    post_hook_null_and_primitives[of sample_parse "''null''" sample_time 7 7
      "after_one 1 (ev_named ''session_start'')"]
    post_hook_null_and_primitives[of sample_parse "''5''" sample_time 7 7 init_state]
  show ?thesis by simp
qed

end
